theory Spec2Isabelle
  imports Main
begin

section \<open>Data model\<close>

text \<open>
  Go's \<open>error\<close> values. The plugin only ever asks two things of an error: whether
  \<open>os.IsNotExist\<close> holds of it (line 59) and what it prints as (lines 65, 93, 102).
  \<open>ErrNotExist\<close> stands for the errors of which \<open>os.IsNotExist\<close> is true, \<open>ErrOther\<close>
  for all others; both carry the printed message. A Go \<open>error\<close> that may be \<open>nil\<close>
  is an \<open>error option\<close>.
\<close>

datatype error = ErrNotExist string | ErrOther string

fun Error_msg :: "error \<Rightarrow> string" where
  "Error_msg (ErrNotExist m) = m"
| "Error_msg (ErrOther m) = m"

fun IsNotExist :: "error option \<Rightarrow> bool" where
  "IsNotExist None = False"
| "IsNotExist (Some (ErrNotExist m)) = True"
| "IsNotExist (Some (ErrOther m)) = False"

text \<open>One entry of the manifest (\<open>c.manifest.Services\<close>, lines 100-101) and the manifest.\<close>

record ServiceSpec =
  ServiceName :: string
  Broker :: string
  PlanName :: string
  JSONParameters :: string

record Manifest =
  Services :: "ServiceSpec list"

text \<open>
  What the control API returns: \<open>GetServices\<close> yields entries with a \<open>Name\<close> (line 126),
  \<open>GetService\<close> yields a service with a \<open>LastOperation\<close> carrying \<open>Description\<close> and
  \<open>State\<close> (lines 152-160).
\<close>

record GetServices_Model =
  Name :: string

record LastOperation_Model =
  Description :: string
  State :: string

record GetService_Model =
  LastOperation :: LastOperation_Model

text \<open>
  Everything outside the plugin: the \<open>plugin.CliConnection\<close> (\<open>GetServices\<close>,
  \<open>GetService\<close>, \<open>CliCommand\<close>), the file system (\<open>os.Stat\<close>, \<open>os.Open\<close>), the process
  environment (\<open>os.Getenv\<close>) and the manifest parser \<open>ParseManifest\<close>, whose source is
  not part of the file under study and is therefore a parameter. The outside world has a
  state of type \<open>'w\<close>; every call may read and change it. An opened file is represented
  by its contents.
\<close>

record 'w environment =
  GetServices :: "'w \<Rightarrow> (error + GetServices_Model list) \<times> 'w"
  GetService :: "string \<Rightarrow> 'w \<Rightarrow> (error + GetService_Model) \<times> 'w"
  CliCommand :: "string list \<Rightarrow> 'w \<Rightarrow> (string list \<times> error option) \<times> 'w"
  Stat :: "string \<Rightarrow> 'w \<Rightarrow> error option \<times> 'w"
  Open :: "string \<Rightarrow> 'w \<Rightarrow> (error + string) \<times> 'w"
  Getenv :: "string \<Rightarrow> string"
  ParseManifest :: "string \<Rightarrow> error + Manifest"

text \<open>
  What the plugin does to the outside, in order: every call it makes and every line it
  writes to standard output. \<open>SpinnerNext\<close> is \<open>pb.Next\<close> of the progress spinner
  (line 152), whose rendering is outside the file under study.
\<close>

datatype event =
    Printed string
  | GetServicesCall
  | GetServiceCall string
  | CliCommandCall "string list"
  | StatCall string
  | OpenCall string
  | ParseManifestCall string
  | SpinnerNext string

record 'w sys =
  world :: 'w
  trace :: "event list"

definition emit :: "event \<Rightarrow> 'w sys \<Rightarrow> 'w sys" where
  "emit e s = s\<lparr>trace := trace s @ [e]\<rparr>"

definition Printf :: "string \<Rightarrow> 'w sys \<Rightarrow> 'w sys" where
  "Printf line s = emit (Printed line) s"

text \<open>How a run of \<open>Run\<close> ends: it returns, calls \<open>os.Exit\<close>, or panics.\<close>

datatype panic = IndexOutOfRange nat nat

datatype outcome = Returned | Exited int | Panicked panic

section \<open>Calls to the outside\<close>

definition cf_GetServices ::
  "'w environment \<Rightarrow> 'w sys \<Rightarrow> (error + GetServices_Model list) \<times> 'w sys" where
  "cf_GetServices env s =
     (case GetServices env (world s) of
        (r, w) \<Rightarrow> (r, \<lparr>world = w, trace = trace s @ [GetServicesCall]\<rparr>))"

definition cf_GetService ::
  "'w environment \<Rightarrow> string \<Rightarrow> 'w sys \<Rightarrow> (error + GetService_Model) \<times> 'w sys" where
  "cf_GetService env name s =
     (case GetService env name (world s) of
        (r, w) \<Rightarrow> (r, \<lparr>world = w, trace = trace s @ [GetServiceCall name]\<rparr>))"

definition cf_CliCommand ::
  "'w environment \<Rightarrow> string list \<Rightarrow> 'w sys \<Rightarrow> (string list \<times> error option) \<times> 'w sys" where
  "cf_CliCommand env args s =
     (case CliCommand env args (world s) of
        (r, w) \<Rightarrow> (r, \<lparr>world = w, trace = trace s @ [CliCommandCall args]\<rparr>))"

definition os_Stat :: "'w environment \<Rightarrow> string \<Rightarrow> 'w sys \<Rightarrow> error option \<times> 'w sys" where
  "os_Stat env filename s =
     (case Stat env filename (world s) of
        (r, w) \<Rightarrow> (r, \<lparr>world = w, trace = trace s @ [StatCall filename]\<rparr>))"

definition os_Open :: "'w environment \<Rightarrow> string \<Rightarrow> 'w sys \<Rightarrow> (error + string) \<times> 'w sys" where
  "os_Open env filename s =
     (case Open env filename (world s) of
        (r, w) \<Rightarrow> (r, \<lparr>world = w, trace = trace s @ [OpenCall filename]\<rparr>))"

text \<open>\<open>strings.Join\<close>.\<close>

fun Join :: "string list \<Rightarrow> string \<Rightarrow> string" where
  "Join [] sep = []"
| "Join [x] sep = x"
| "Join (x # y # ys) sep = x @ sep @ Join (y # ys) sep"

section \<open>The service orchestrator\<close>

text \<open>\<open>run\<close> (lines 109-117).\<close>

definition run :: "'w environment \<Rightarrow> string list \<Rightarrow> 'w sys \<Rightarrow> error option \<times> 'w sys" where
  "run env args s =
     (let s1 = (if Getenv env ''DEBUG'' \<noteq> [] then Printf (''>> '' @ Join args '' '' @ ''\<newline>'') s
                else s);
          s2 = Printf (''Now Running CLI Command: '' @ Join args '' '' @ ''\<newline>'') s1
      in case cf_CliCommand env args s2 of ((output, err), s3) \<Rightarrow> (err, s3))"

text \<open>\<open>fmt.Errorf("error %s [status: %s]", ...)\<close> (lines 157-161).\<close>

definition failed_error :: "string \<Rightarrow> string \<Rightarrow> error" where
  "failed_error description state =
     ErrOther (''error '' @ description @ '' [status: '' @ state @ '']'')"

text \<open>
  The polling loop of \<open>createService\<close> (lines 146-164). The loop has no bound, so it is
  a partial function: \<open>None\<close> is a loop that never ends. \<open>Some (None, s)\<close> is the
  \<open>break\<close>, \<open>Some (Some e, s)\<close> a \<open>return\<close> of the error \<open>e\<close> from inside the loop.
\<close>

partial_function (option) poll ::
  "'w environment \<Rightarrow> string \<Rightarrow> 'w sys \<Rightarrow> (error option \<times> 'w sys) option" where
  "poll env name s =
     (case cf_GetService env name s of
        (Inl err, s1) \<Rightarrow> Some (Some err, s1)
      | (Inr service, s1) \<Rightarrow>
          (let s2 = emit (SpinnerNext (Description (LastOperation service))) s1
           in if State (LastOperation service) = ''succeeded'' then Some (None, s2)
              else if State (LastOperation service) = ''failed'' then
                Some (Some (failed_error (Description (LastOperation service))
                                         (State (LastOperation service))), s2)
              else poll env name s2))"

text \<open>The arguments of the creation command (lines 135-139).\<close>

definition create_service_args :: "string \<Rightarrow> string \<Rightarrow> string \<Rightarrow> string \<Rightarrow> string list" where
  "create_service_args name broker plan JSONParam =
     (if JSONParam = [] then [''create-service'', broker, plan, name]
      else [''create-service'', broker, plan, name, ''-c'', JSONParam])"

text \<open>\<open>createService\<close> (lines 119-167).\<close>

definition createService ::
  "'w environment \<Rightarrow> string \<Rightarrow> string \<Rightarrow> string \<Rightarrow> string \<Rightarrow> 'w sys
     \<Rightarrow> (error option \<times> 'w sys) option" where
  "createService env name broker plan JSONParam s =
     (case cf_GetServices env s of
        (Inl err, s1) \<Rightarrow> Some (Some err, s1)
      | (Inr svcs, s1) \<Rightarrow>
          if list_ex (\<lambda>svc. Name svc = name) svcs then
            Some (None, Printf (name @ '' already exists.\<newline>'') s1)
          else
            (case run env (create_service_args name broker plan JSONParam)
                    (Printf (name @ '' will now be created.\<newline>'') s1) of
               (Some result, s3) \<Rightarrow> Some (Some result, s3)
             | (None, s3) \<Rightarrow> poll env name s3))"

text \<open>\<open>createServices\<close> (lines 98-107): the loop over the manifest, then \<open>return nil\<close>.\<close>

fun createServices ::
  "'w environment \<Rightarrow> ServiceSpec list \<Rightarrow> 'w sys \<Rightarrow> (error option \<times> 'w sys) option" where
  "createServices env [] s = Some (None, s)"
| "createServices env (serviceObject # rest) s =
     (case createService env (ServiceName serviceObject) (Broker serviceObject)
             (PlanName serviceObject) (JSONParameters serviceObject) s of
        None \<Rightarrow> None
      | Some (Some err, s1) \<Rightarrow>
          createServices env rest
            (Printf (''Create Service Error: '' @ Error_msg err @ '' \<newline>'') s1)
      | Some (None, s1) \<Rightarrow> createServices env rest s1)"

section \<open>The command entry point\<close>

text \<open>
  The first flag scan of \<open>Run\<close> (lines 40-48), from index \<open>i\<close>. Reading \<open>args[i+1]\<close>
  past the end of the slice is a panic.
\<close>

function manifest_scan :: "string list \<Rightarrow> nat \<Rightarrow> string \<Rightarrow> panic + string" where
  "manifest_scan args i manifestFilename =
     (if i < length args then
        (if args ! i = ''--service-manifest'' then
           (if i + 1 < length args then Inr (args ! (i + 1))
            else Inl (IndexOutOfRange (i + 1) (length args)))
         else if args ! i = ''--no-service-manifest'' then Inr []
         else manifest_scan args (i + 1) manifestFilename)
      else Inr manifestFilename)"
  by pat_completeness auto

termination
  by (relation "measure (\<lambda>(args, i, manifestFilename). length args - i)") auto

declare manifest_scan.simps [simp del]

text \<open>The second flag scan (lines 50-55).\<close>

fun push_scan :: "string list \<Rightarrow> bool \<Rightarrow> bool" where
  "push_scan [] pushApplication = pushApplication"
| "push_scan (arg # rest) pushApplication =
     (if arg = ''--no-push'' then False else push_scan rest pushApplication)"

text \<open>
  Step 2 of \<open>Run\<close> (lines 58-82). The result is \<open>None\<close> when a polling loop never
  ends, \<open>Some (Some code, s)\<close> when \<open>os.Exit(code)\<close> is called, and \<open>Some (None, s)\<close>
  when control reaches line 84.
\<close>

definition manifest_stage ::
  "'w environment \<Rightarrow> string \<Rightarrow> 'w sys \<Rightarrow> (int option \<times> 'w sys) option" where
  "manifest_stage env manifestFilename s =
     (if length manifestFilename > 0 then
        (case os_Stat env manifestFilename s of
           (err, s1) \<Rightarrow>
             if \<not> IsNotExist err then
               (case os_Open env manifestFilename
                       (Printf (''Found ManifestFile: '' @ manifestFilename @ ''\<newline>'') s1) of
                  (Inr filePointer, s2) \<Rightarrow>
                    (case ParseManifest env filePointer of
                       Inl perr \<Rightarrow>
                         Some (Some 1, Printf (''ERROR: '' @ Error_msg perr @ ''\<newline>'')
                                         (emit (ParseManifestCall filePointer) s2))
                     | Inr manifest \<Rightarrow>
                         (case createServices env (Services manifest)
                                 (emit (ParseManifestCall filePointer) s2) of
                            None \<Rightarrow> None
                          | Some (r, s3) \<Rightarrow> Some (None, s3)))
                | (Inl oerr, s2) \<Rightarrow>
                    Some (Some 1, Printf (''ERROR: Unable to open '' @ manifestFilename
                                            @ ''.\<newline>'') s2))
             else
               Some (Some 1, Printf (''ERROR: The file '' @ manifestFilename
                                       @ '' was not found.\<newline>'') s1))
      else Some (None, s))"

text \<open>
  Step 3 of \<open>Run\<close> (lines 85-94), the forwarded deploy command. \<open>%s\<close> of a string
  slice prints its elements between brackets, separated by spaces.
\<close>

definition push_stage :: "'w environment \<Rightarrow> string list \<Rightarrow> 'w sys \<Rightarrow> 'w sys" where
  "push_stage env args s =
     (case cf_CliCommand env (''push'' # tl args)
             (Printf (''Performing a CF Push with arguments '' @ Join (tl args) '' ''
                        @ ''\<newline>'') s) of
        ((output, err), s1) \<Rightarrow>
          (let s2 = Printf (''['' @ Join output '' '' @ '']'' @ ''\<newline>'') s1
           in case err of
                Some e \<Rightarrow> Printf (''ERROR while pushing: '' @ Error_msg e @ ''\<newline>'') s2
              | None \<Rightarrow> s2))"

text \<open>\<open>Run\<close> (lines 30-96). \<open>args[0]\<close> of an empty slice is a panic.\<close>

definition Run ::
  "'w environment \<Rightarrow> string list \<Rightarrow> 'w sys \<Rightarrow> (outcome \<times> 'w sys) option" where
  "Run env args s =
     (if length args = 0 then Some (Panicked (IndexOutOfRange 0 0), s)
      else if args ! 0 \<noteq> ''create-service-push'' then Some (Returned, s)
      else
        (case manifest_scan args 0 ''services-manifest.yml'' of
           Inl p \<Rightarrow> Some (Panicked p, s)
         | Inr manifestFilename \<Rightarrow>
             (let pushApplication = push_scan args True
              in case manifest_stage env manifestFilename s of
                   None \<Rightarrow> None
                 | Some (Some code, s1) \<Rightarrow> Some (Exited code, s1)
                 | Some (None, s1) \<Rightarrow>
                     Some (Returned, if pushApplication then push_stage env args s1 else s1))))"

section \<open>Observations on a run\<close>

text \<open>
  Projections of the trace in which the properties below are stated: the events of the
  polling loop, the commands passed to \<open>CliCommand\<close>, the queries \<open>GetServices\<close> and
  \<open>GetService\<close>, the forwarded \<open>push\<close> command, and everything the manifest branch of
  \<open>Run\<close> can do (file lookup, parse, and the calls of service creation).
\<close>

fun is_poll_event :: "event \<Rightarrow> bool" where
  "is_poll_event (GetServiceCall n) = True"
| "is_poll_event (SpinnerNext d) = True"
| "is_poll_event e = False"

fun cli_commands :: "event list \<Rightarrow> string list list" where
  "cli_commands [] = []"
| "cli_commands (CliCommandCall args # evs) = args # cli_commands evs"
| "cli_commands (e # evs) = cli_commands evs"

fun is_GetServices :: "event \<Rightarrow> bool" where
  "is_GetServices GetServicesCall = True"
| "is_GetServices e = False"

fun is_GetService :: "event \<Rightarrow> bool" where
  "is_GetService (GetServiceCall n) = True"
| "is_GetService e = False"

fun is_push :: "event \<Rightarrow> bool" where
  "is_push (CliCommandCall (a # rest)) = (a = ''push'')"
| "is_push e = False"

fun is_manifest_work :: "event \<Rightarrow> bool" where
  "is_manifest_work (StatCall f) = True"
| "is_manifest_work (OpenCall f) = True"
| "is_manifest_work (ParseManifestCall f) = True"
| "is_manifest_work GetServicesCall = True"
| "is_manifest_work (GetServiceCall n) = True"
| "is_manifest_work (CliCommandCall (a # rest)) = (a = ''create-service'')"
| "is_manifest_work e = False"

text \<open>
  The response of the \<open>k\<close>-th successive \<open>GetService\<close> query (counted from 0) issued from
  the world \<open>w\<close>, with the world it leaves behind; and the number of such queries recorded
  in a state.
\<close>

fun polled :: "'w environment \<Rightarrow> string \<Rightarrow> 'w \<Rightarrow> nat \<Rightarrow> (error + GetService_Model) \<times> 'w" where
  "polled env name w 0 = GetService env name w"
| "polled env name w (Suc k) = polled env name (snd (GetService env name w)) k"

definition polls_made :: "'w sys \<Rightarrow> nat" where
  "polls_made s = length (filter is_GetService (trace s))"

text \<open>
  The three fatal cases of the manifest stage, read off the outside world for an active
  manifest file name: the file is not found, it is found but cannot be opened, or its
  contents do not parse.
\<close>

definition fatal_manifest_error :: "'w environment \<Rightarrow> string \<Rightarrow> 'w \<Rightarrow> bool" where
  "fatal_manifest_error env filename w =
     (case Stat env filename w of
        (err, w1) \<Rightarrow>
          if IsNotExist err then True
          else (case Open env filename w1 of
                  (Inl oerr, w2) \<Rightarrow> True
                | (Inr contents, w2) \<Rightarrow>
                    (case ParseManifest env contents of Inl perr \<Rightarrow> True | Inr m \<Rightarrow> False)))"

section \<open>Conditions on a run\<close>

text \<open>
  The polling loop for \<open>name\<close>, started in the world \<open>w\<close>, settles within \<open>n + 1\<close>
  queries: one of them is answered with an API error, or with the state \<open>succeeded\<close> or
  \<open>failed\<close>.
\<close>

fun settles :: "'w environment \<Rightarrow> string \<Rightarrow> 'w \<Rightarrow> nat \<Rightarrow> bool" where
  "settles env name w 0 =
     (case GetService env name w of
        (Inl err, w') \<Rightarrow> True
      | (Inr service, w') \<Rightarrow>
          State (LastOperation service) = ''succeeded''
          \<or> State (LastOperation service) = ''failed'')"
| "settles env name w (Suc n) =
     (case GetService env name w of
        (Inl err, w') \<Rightarrow> True
      | (Inr service, w') \<Rightarrow>
          State (LastOperation service) = ''succeeded''
          \<or> State (LastOperation service) = ''failed''
          \<or> settles env name w' n)"

text \<open>
  The state in which \<open>createService\<close> enters its polling loop (line 145), if it gets
  there: the service is not listed and the creation command has reported no error.
\<close>

definition loop_entry ::
  "'w environment \<Rightarrow> string \<Rightarrow> string \<Rightarrow> string \<Rightarrow> string \<Rightarrow> 'w sys \<Rightarrow> 'w sys option" where
  "loop_entry env name broker plan JSONParam s =
     (case cf_GetServices env s of
        (Inl err, s1) \<Rightarrow> None
      | (Inr svcs, s1) \<Rightarrow>
          if list_ex (\<lambda>svc. Name svc = name) svcs then None
          else
            (case run env (create_service_args name broker plan JSONParam)
                    (Printf (name @ '' will now be created.\<newline>'') s1) of
               (Some result, s3) \<Rightarrow> None
             | (None, s3) \<Rightarrow> Some s3))"

text \<open>
  Every polling loop that the batch enters settles within \<open>n + 1\<close> queries. The batch is
  followed entry by entry: \<open>createServices env [x] s\<close> gives the state after the entry
  \<open>x\<close>.
\<close>

fun polls_settle :: "nat \<Rightarrow> 'w environment \<Rightarrow> ServiceSpec list \<Rightarrow> 'w sys \<Rightarrow> bool" where
  "polls_settle n env [] s = True"
| "polls_settle n env (x # rest) s =
     ((case loop_entry env (ServiceName x) (Broker x) (PlanName x) (JSONParameters x) s of
         None \<Rightarrow> True
       | Some s3 \<Rightarrow> settles env (ServiceName x) (world s3) n)
      \<and> (case createServices env [x] s of
            None \<Rightarrow> True
          | Some (r, s1) \<Rightarrow> polls_settle n env rest s1))"

text \<open>
  At each entry's turn, \<open>GetServices\<close> answers with a list that holds no service of the
  entry's name.
\<close>

fun fresh_at_turn :: "'w environment \<Rightarrow> ServiceSpec list \<Rightarrow> 'w sys \<Rightarrow> bool" where
  "fresh_at_turn env [] s = True"
| "fresh_at_turn env (x # rest) s =
     ((case GetServices env (world s) of
         (Inl err, w) \<Rightarrow> False
       | (Inr svcs, w) \<Rightarrow> \<not> list_ex (\<lambda>svc. Name svc = ServiceName x) svcs)
      \<and> (case createServices env [x] s of
            None \<Rightarrow> True
          | Some (r, s1) \<Rightarrow> fresh_at_turn env rest s1))"

text \<open>
  The manifest and the state with which \<open>Run\<close> calls \<open>createServices\<close> (line 73), if
  it gets there.
\<close>

definition batch_entry ::
  "'w environment \<Rightarrow> string \<Rightarrow> 'w sys \<Rightarrow> (ServiceSpec list \<times> 'w sys) option" where
  "batch_entry env manifestFilename s =
     (if length manifestFilename > 0 then
        (case os_Stat env manifestFilename s of
           (err, s1) \<Rightarrow>
             if \<not> IsNotExist err then
               (case os_Open env manifestFilename
                       (Printf (''Found ManifestFile: '' @ manifestFilename @ ''\<newline>'') s1) of
                  (Inr filePointer, s2) \<Rightarrow>
                    (case ParseManifest env filePointer of
                       Inl perr \<Rightarrow> None
                     | Inr manifest \<Rightarrow>
                         Some (Services manifest, emit (ParseManifestCall filePointer) s2))
                | (Inl oerr, s2) \<Rightarrow> None)
             else None)
      else None)"

section \<open>A concrete outside world\<close>

text \<open>
  Two manifest entries and a control API over a counter: no service exists, every command
  succeeds, the manifest file is present and parses to the two entries, and a queried
  service is in progress for the first \<open>n\<close> queries and has succeeded from then on.
  \<open>failing_cli\<close> is a \<open>CliCommand\<close> that always reports an error.
\<close>

definition db1 :: ServiceSpec where
  "db1 = \<lparr>ServiceName = ''db1'', Broker = ''mysql'', PlanName = ''free'', JSONParameters = []\<rparr>"

definition cache :: ServiceSpec where
  "cache = \<lparr>ServiceName = ''cache'', Broker = ''redis'', PlanName = ''small'',
             JSONParameters = ''{}''\<rparr>"

definition example_env :: "nat \<Rightarrow> nat environment" where
  "example_env n =
     \<lparr>GetServices = (\<lambda>w. (Inr [], w)),
      GetService = (\<lambda>name w.
        (Inr \<lparr>LastOperation = \<lparr>Description = ''create in progress'',
                State = (if w < n then ''in progress'' else ''succeeded'')\<rparr>\<rparr>, Suc w)),
      CliCommand = (\<lambda>args w. (([], None), w)),
      Stat = (\<lambda>filename w. (None, w)),
      Open = (\<lambda>filename w. (Inr ''services'', w)),
      Getenv = (\<lambda>var. []),
      ParseManifest = (\<lambda>text. Inr \<lparr>Services = [db1, cache]\<rparr>)\<rparr>"

definition failing_cli :: "string list \<Rightarrow> nat \<Rightarrow> (string list \<times> error option) \<times> nat" where
  "failing_cli args w = (([], Some (ErrOther ''boom'')), w)"

definition start :: "nat sys" where
  "start = \<lparr>world = 0, trace = []\<rparr>"

text \<open>
  A service that never leaves \<open>in progress\<close>; and a control plane that records the
  services it is asked to create and lists them, with none at the start.
\<close>

definition stuck_service :: "string \<Rightarrow> nat \<Rightarrow> (error + GetService_Model) \<times> nat" where
  "stuck_service name w =
     (Inr \<lparr>LastOperation = \<lparr>Description = ''create in progress'', State = ''in progress''\<rparr>\<rparr>,
      Suc w)"

definition tracking_env :: "string list environment" where
  "tracking_env =
     \<lparr>GetServices = (\<lambda>w. (Inr (map (\<lambda>n. \<lparr>Name = n\<rparr>) w), w)),
      GetService = (\<lambda>name w.
        (Inr \<lparr>LastOperation = \<lparr>Description = ''create succeeded'', State = ''succeeded''\<rparr>\<rparr>, w)),
      CliCommand = (\<lambda>args w.
        (([], None),
         if 4 \<le> length args \<and> args ! 0 = ''create-service'' then w @ [args ! 3] else w)),
      Stat = (\<lambda>filename w. (None, w)),
      Open = (\<lambda>filename w. (Inr ''services'', w)),
      Getenv = (\<lambda>var. []),
      ParseManifest = (\<lambda>text. Inr \<lparr>Services = [db1, cache]\<rparr>)\<rparr>"

definition nothing_created :: "string list sys" where
  "nothing_created = \<lparr>world = [], trace = []\<rparr>"

section \<open>Traces\<close>

lemmas example_defs =
  example_env_def failing_cli_def start_def db1_def cache_def create_service_args_def
  createService_def cf_GetServices_def cf_GetService_def cf_CliCommand_def os_Stat_def os_Open_def
  run_def Printf_def emit_def Let_def

lemma trace_emit: "trace (emit e s) = trace s @ [e]"
  by (simp add: emit_def)

lemma world_emit: "world (emit e s) = world s"
  by (simp add: emit_def)

lemma trace_Printf: "trace (Printf l s) = trace s @ [Printed l]"
  by (simp add: Printf_def emit_def)

lemma world_Printf: "world (Printf l s) = world s"
  by (simp add: Printf_def emit_def)

lemma cli_commands_append: "cli_commands (xs @ ys) = cli_commands xs @ cli_commands ys"
  by (induction xs rule: cli_commands.induct) simp_all

lemma cli_commands_poll_events: "list_all is_poll_event evs \<Longrightarrow> cli_commands evs = []"
  by (induction evs rule: cli_commands.induct) simp_all

lemma cli_commands_Printed: "list_all (\<lambda>e. \<exists>l. e = Printed l) evs \<Longrightarrow> cli_commands evs = []"
  by (induction evs rule: cli_commands.induct) auto

lemma filter_GetServices_poll_events:
  "list_all is_poll_event evs \<Longrightarrow> filter is_GetServices evs = []"
  by (induction evs rule: cli_commands.induct) simp_all

lemma filter_GetServices_Printed:
  "list_all (\<lambda>e. \<exists>l. e = Printed l) evs \<Longrightarrow> filter is_GetServices evs = []"
  by (induction evs) auto

lemma filter_push_Printed:
  "list_all (\<lambda>e. \<exists>l. e = Printed l) evs \<Longrightarrow> filter is_push evs = []"
  by (induction evs) auto

lemma filter_push_poll_events:
  "list_all is_poll_event evs \<Longrightarrow> filter is_push evs = []"
proof (induction evs)
  case Nil
  then show ?case by simp
next
  case (Cons e evs)
  then show ?case by (cases e) simp_all
qed

lemma filter_manifest_work_Printed:
  "list_all (\<lambda>e. \<exists>l. e = Printed l) evs \<Longrightarrow> filter is_manifest_work evs = []"
  by (induction evs) auto

lemma list_ex_Name: "list_ex (\<lambda>svc. Name svc = name) svcs \<longleftrightarrow> (\<exists>svc\<in>set svcs. Name svc = name)"
  by (simp add: list_ex_iff)

section \<open>The polling loop\<close>

text \<open>
  Whatever the loop returns, it has only added queries and spinner updates to the trace.
\<close>

lemma poll_extends:
  assumes "poll env name s = Some y"
  shows "\<exists>evs. trace (snd y) = trace s @ evs \<and> list_all is_poll_event evs"
  using assms
proof (induct rule: poll.raw_induct[rotated 1, consumes 1, case_names step])
  case (step poll' env name s y)
  obtain r w where gs: "GetService env name (world s) = (r, w)"
    by (cases "GetService env name (world s)")
  show ?case
  proof (cases r)
    case (Inl err)
    with step(2) gs show ?thesis
      by (auto simp: cf_GetService_def)
  next
    case (Inr service)
    let ?s2 = "emit (SpinnerNext (Description (LastOperation service)))
                 \<lparr>world = w, trace = trace s @ [GetServiceCall name]\<rparr>"
    show ?thesis
    proof (cases "State (LastOperation service) = ''succeeded''
                    \<or> State (LastOperation service) = ''failed''")
      case True
      with step(2) gs Inr show ?thesis
        by (auto simp: cf_GetService_def trace_emit)
    next
      case False
      with step(2) gs Inr have "poll' env name ?s2 = Some y"
        by (simp add: cf_GetService_def)
      from step(1)[OF this] obtain evs where
        "trace (snd y) = trace ?s2 @ evs" "list_all is_poll_event evs"
        by blast
      then have "trace (snd y) = trace s @ (GetServiceCall name
                   # SpinnerNext (Description (LastOperation service)) # evs)
                 \<and> list_all is_poll_event (GetServiceCall name
                   # SpinnerNext (Description (LastOperation service)) # evs)"
        by (simp add: trace_emit)
      then show ?thesis by blast
    qed
  qed
qed

text \<open>
  One iteration of the loop for a query that the API answers.
\<close>

lemma poll_step:
  assumes "GetService env name (world s) = (Inr service, w)"
  shows "poll env name s =
     (let s2 = \<lparr>world = w, trace = trace s @ [GetServiceCall name,
                   SpinnerNext (Description (LastOperation service))]\<rparr>
      in if State (LastOperation service) = ''succeeded'' then Some (None, s2)
         else if State (LastOperation service) = ''failed'' then
           Some (Some (failed_error (Description (LastOperation service)) ''failed''), s2)
         else poll env name s2)"
  using assms
  by (subst poll.simps) (simp add: cf_GetService_def emit_def Let_def)

lemma poll_polls_made:
  assumes "poll env name s = Some (r, s')"
  shows "polls_made s < polls_made s'"
proof -
  obtain q w where q: "GetService env name (world s) = (q, w)"
    by (cases "GetService env name (world s)")
  show ?thesis
  proof (cases q)
    case (Inl err)
    with assms q show ?thesis
      by (subst (asm) poll.simps) (auto simp: cf_GetService_def polls_made_def)
  next
    case (Inr service)
    let ?s2 = "\<lparr>world = w, trace = trace s @ [GetServiceCall name,
                   SpinnerNext (Description (LastOperation service))]\<rparr>"
    show ?thesis
    proof (cases "State (LastOperation service) = ''succeeded''
                    \<or> State (LastOperation service) = ''failed''")
      case True
      with assms q Inr show ?thesis
        by (auto simp: poll_step polls_made_def)
    next
      case False
      with assms q Inr have "poll env name ?s2 = Some (r, s')"
        by (simp add: poll_step)
      from poll_extends[OF this] obtain evs where "trace s' = trace ?s2 @ evs"
        by auto
      then show ?thesis
        by (simp add: polls_made_def)
    qed
  qed
qed

lemma settles_poll_returns:
  "settles env name (world s) n \<Longrightarrow> poll env name s \<noteq> None"
proof (induction n arbitrary: s)
  case 0
  obtain q w where q: "GetService env name (world s) = (q, w)"
    by (cases "GetService env name (world s)")
  show ?case
  proof (cases q)
    case (Inl err)
    with q show ?thesis
      by (subst poll.simps) (simp add: cf_GetService_def)
  next
    case (Inr service)
    with 0 q show ?thesis
      by (auto simp: poll_step)
  qed
next
  case (Suc n)
  obtain q w where q: "GetService env name (world s) = (q, w)"
    by (cases "GetService env name (world s)")
  show ?case
  proof (cases q)
    case (Inl err)
    with q show ?thesis
      by (subst poll.simps) (simp add: cf_GetService_def)
  next
    case (Inr service)
    let ?s2 = "\<lparr>world = w, trace = trace s @ [GetServiceCall name,
                   SpinnerNext (Description (LastOperation service))]\<rparr>"
    show ?thesis
    proof (cases "State (LastOperation service) = ''succeeded''
                    \<or> State (LastOperation service) = ''failed''")
      case True
      with q Inr show ?thesis by (auto simp: poll_step)
    next
      case False
      with Suc.prems q Inr have "settles env name (world ?s2) n" by simp
      from Suc.IH[OF this] False q Inr show ?thesis by (simp add: poll_step)
    qed
  qed
qed

text \<open>
  The loop really is unbounded: against a service that never reaches \<open>succeeded\<close> or
  \<open>failed\<close>, and an API that keeps answering, it never returns.
\<close>

lemma poll_never_returns_aux:
  assumes "poll env name s = Some y"
    and "\<forall>w. \<exists>svc w'. GetService env name w = (Inr svc, w')
            \<and> State (LastOperation svc) \<noteq> ''succeeded''
            \<and> State (LastOperation svc) \<noteq> ''failed''"
  shows False
  using assms
proof (induct rule: poll.raw_induct[rotated 1, consumes 1, case_names step])
  case (step poll' env name s y)
  from step(3) obtain svc w' where
    "GetService env name (world s) = (Inr svc, w')"
    "State (LastOperation svc) \<noteq> ''succeeded''" "State (LastOperation svc) \<noteq> ''failed''"
    by blast
  with step(2) have "poll' env name
      (emit (SpinnerNext (Description (LastOperation svc)))
         \<lparr>world = w', trace = trace s @ [GetServiceCall name]\<rparr>) = Some y"
    by (simp add: cf_GetService_def)
  from step(1)[OF this step(3)] show False .
qed

lemma poll_never_returns:
  assumes "\<forall>w. \<exists>svc w'. GetService env name w = (Inr svc, w')
            \<and> State (LastOperation svc) \<noteq> ''succeeded''
            \<and> State (LastOperation svc) \<noteq> ''failed''"
  shows "poll env name s = None"
proof (cases "poll env name s")
  case None
  then show ?thesis .
next
  case (Some y)
  from poll_never_returns_aux[OF this assms] show ?thesis ..
qed

lemma stuck_poll:
  "GetService env = stuck_service \<Longrightarrow> poll env name s = None"
  by (rule poll_never_returns) (simp add: stuck_service_def)

text \<open>
  Claim C5. Let the first \<open>k\<close> queries be answered with states other than
  \<open>succeeded\<close> and \<open>failed\<close>, and let the next query be answered with \<open>service\<close>.
  If its state is \<open>succeeded\<close> the loop ends there and \<open>createService\<close> goes on to
  return nil; if it is \<open>failed\<close> the loop returns, after exactly these \<open>k + 1\<close>
  queries, the error whose message is \<open>error\<close>, the description, and the state in
  \<open>[status: failed]\<close>; for any other state the loop does not return at this query: a
  run that returns has made more than \<open>k + 1\<close> queries.
\<close>

theorem poll_stops_at_first_terminal_state:
  assumes "\<forall>i<k. \<exists>svc. fst (polled env name (world s) i) = Inr svc
              \<and> State (LastOperation svc) \<noteq> ''succeeded''
              \<and> State (LastOperation svc) \<noteq> ''failed''"
    and "fst (polled env name (world s) k) = Inr service"
  shows "(State (LastOperation service) = ''succeeded'' \<longrightarrow>
            (\<exists>s'. poll env name s = Some (None, s') \<and> polls_made s' = polls_made s + Suc k))
       \<and> (State (LastOperation service) = ''failed'' \<longrightarrow>
            (\<exists>s'. poll env name s
                     = Some (Some (ErrOther (''error '' @ Description (LastOperation service)
                                               @ '' [status: failed]'')), s')
                 \<and> polls_made s' = polls_made s + Suc k))
       \<and> (State (LastOperation service) \<noteq> ''succeeded''
            \<and> State (LastOperation service) \<noteq> ''failed'' \<longrightarrow>
            (\<forall>r s'. poll env name s = Some (r, s') \<longrightarrow> polls_made s + Suc k < polls_made s'))"
  using assms
proof (induction k arbitrary: s)
  case 0
  obtain w where q: "GetService env name (world s) = (Inr service, w)"
    using 0(2) by (cases "GetService env name (world s)") simp
  let ?s2 = "\<lparr>world = w, trace = trace s @ [GetServiceCall name,
                 SpinnerNext (Description (LastOperation service))]\<rparr>"
  have pm: "polls_made ?s2 = polls_made s + 1"
    by (simp add: polls_made_def)
  have "polls_made s + Suc 0 < polls_made s'"
    if "State (LastOperation service) \<noteq> ''succeeded''"
       "State (LastOperation service) \<noteq> ''failed''"
       "poll env name s = Some (r, s')" for r s'
  proof -
    from that q have "poll env name ?s2 = Some (r, s')"
      by (simp add: poll_step)
    from poll_polls_made[OF this] pm show ?thesis by simp
  qed
  then show ?case
    using q pm by (auto simp: poll_step failed_error_def)
next
  case (Suc k)
  from Suc.prems(1) obtain svc where
    first: "fst (polled env name (world s) 0) = Inr svc"
    "State (LastOperation svc) \<noteq> ''succeeded''" "State (LastOperation svc) \<noteq> ''failed''"
    by blast
  then obtain w where q: "GetService env name (world s) = (Inr svc, w)"
    by (cases "GetService env name (world s)") simp
  let ?s2 = "\<lparr>world = w, trace = trace s @ [GetServiceCall name,
                 SpinnerNext (Description (LastOperation svc))]\<rparr>"
  have step: "poll env name s = poll env name ?s2"
    using q first by (simp add: poll_step)
  have pm: "polls_made ?s2 = polls_made s + 1"
    by (simp add: polls_made_def)
  have "\<forall>i<k. \<exists>svc. fst (polled env name (world ?s2) i) = Inr svc
              \<and> State (LastOperation svc) \<noteq> ''succeeded''
              \<and> State (LastOperation svc) \<noteq> ''failed''"
  proof (intro allI impI)
    fix i assume "i < k"
    then have "Suc i < Suc k" by simp
    with Suc.prems(1) show "\<exists>svc. fst (polled env name (world ?s2) i) = Inr svc
              \<and> State (LastOperation svc) \<noteq> ''succeeded''
              \<and> State (LastOperation svc) \<noteq> ''failed''"
      using q by (metis polled.simps(2) select_convs(1) snd_conv)
  qed
  moreover have "fst (polled env name (world ?s2) k) = Inr service"
    using Suc.prems(2) q by simp
  ultimately show ?case
    using Suc.IH[of ?s2] step pm by simp
qed

text \<open>
  An instance of each outcome: success at the third query, and failure at the first.
\<close>

theorem poll_stops_at_first_terminal_state_witness:
  "(\<exists>s'. poll (example_env 2) ''db1'' start = Some (None, s') \<and> polls_made s' = 3)
   \<and> (\<exists>s'. poll (example_env 0\<lparr>GetService := \<lambda>name w.
              (Inr \<lparr>LastOperation = \<lparr>Description = ''broker unreachable'', State = ''failed''\<rparr>\<rparr>,
               Suc w)\<rparr>) ''db1'' start
            = Some (Some (ErrOther ''error broker unreachable [status: failed]''), s')
          \<and> polls_made s' = 1)"
proof -
  let ?ok = "\<lparr>LastOperation = \<lparr>Description = ''create in progress'', State = ''succeeded''\<rparr>\<rparr>"
  let ?bad = "\<lparr>LastOperation = \<lparr>Description = ''broker unreachable'', State = ''failed''\<rparr>\<rparr>"
  let ?envf = "example_env 0\<lparr>GetService := \<lambda>name w. (Inr ?bad, Suc w)\<rparr>"
  have a1: "\<forall>i<Suc (Suc 0). \<exists>svc. fst (polled (example_env 2) ''db1'' (world start) i) = Inr svc
              \<and> State (LastOperation svc) \<noteq> ''succeeded''
              \<and> State (LastOperation svc) \<noteq> ''failed''"
    by (simp add: All_less_Suc example_env_def start_def)
  have a2: "fst (polled (example_env 2) ''db1'' (world start) (Suc (Suc 0))) = Inr ?ok"
    by (simp add: example_env_def start_def)
  have b1: "\<forall>i<0. \<exists>svc. fst (polled ?envf ''db1'' (world start) i) = Inr svc
              \<and> State (LastOperation svc) \<noteq> ''succeeded''
              \<and> State (LastOperation svc) \<noteq> ''failed''"
    by simp
  have b2: "fst (polled ?envf ''db1'' (world start) 0) = Inr ?bad"
    by simp
  from poll_stops_at_first_terminal_state[OF a1 a2] poll_stops_at_first_terminal_state[OF b1 b2]
  show ?thesis
    by (simp add: polls_made_def start_def numeral_3_eq_3)
qed

section \<open>Creating one service\<close>

lemma run_eq:
  "run env args s =
     (snd (fst (CliCommand env args (world s))),
      \<lparr>world = snd (CliCommand env args (world s)),
       trace = trace s
         @ (if Getenv env ''DEBUG'' \<noteq> [] then [Printed (''>> '' @ Join args '' '' @ ''\<newline>'')] else [])
         @ [Printed (''Now Running CLI Command: '' @ Join args '' '' @ ''\<newline>''),
            CliCommandCall args]\<rparr>)"
  by (cases "CliCommand env args (world s)")
     (auto simp: run_def Let_def cf_CliCommand_def trace_Printf world_Printf split: prod.splits)

text \<open>
  The three ways \<open>createService\<close> can return, with the trace of each.
\<close>

lemma createService_cases:
  assumes "createService env name broker plan JSONParam s = Some (r, s')"
  obtains
    (query_failed) err w where "GetServices env (world s) = (Inl err, w)"
      "r = Some err" "trace s' = trace s @ [GetServicesCall]"
  | (exists) svcs w where "GetServices env (world s) = (Inr svcs, w)"
      "\<exists>svc\<in>set svcs. Name svc = name" "r = None"
      "trace s' = trace s @ [GetServicesCall, Printed (name @ '' already exists.\<newline>'')]"
  | (created) svcs w evs evs' where "GetServices env (world s) = (Inr svcs, w)"
      "\<forall>svc\<in>set svcs. Name svc \<noteq> name"
      "trace s' = trace s @ GetServicesCall # evs
          @ CliCommandCall (create_service_args name broker plan JSONParam) # evs'"
      "list_all (\<lambda>e. \<exists>l. e = Printed l) evs" "list_all is_poll_event evs'"
proof -
  obtain q w where q: "GetServices env (world s) = (q, w)"
    by (cases "GetServices env (world s)")
  show thesis
  proof (cases q)
    case (Inl err)
    with assms q show thesis
      by (intro query_failed[of err w]) (auto simp: createService_def cf_GetServices_def)
  next
    case (Inr svcs)
    show thesis
    proof (cases "\<exists>svc\<in>set svcs. Name svc = name")
      case True
      with assms q Inr show thesis
        by (intro exists[of svcs w])
           (auto simp: createService_def cf_GetServices_def list_ex_Name trace_Printf)
    next
      case False
      let ?args = "create_service_args name broker plan JSONParam"
      let ?s1 = "Printf (name @ '' will now be created.\<newline>'')
                   \<lparr>world = w, trace = trace s @ [GetServicesCall]\<rparr>"
      let ?evs = "Printed (name @ '' will now be created.\<newline>'')
           # (if Getenv env ''DEBUG'' \<noteq> [] then [Printed (''>> '' @ Join ?args '' '' @ ''\<newline>'')] else [])
           @ [Printed (''Now Running CLI Command: '' @ Join ?args '' '' @ ''\<newline>'')]"
      obtain res s3 where r3: "run env ?args ?s1 = (res, s3)"
        by (cases "run env ?args ?s1")
      then have tr3: "trace s3 = trace s @ GetServicesCall # ?evs @ [CliCommandCall ?args]"
        by (auto simp: run_eq trace_Printf)
      have pr: "list_all (\<lambda>e. \<exists>l. e = Printed l) ?evs"
        by simp
      show thesis
      proof (cases res)
        case (Some e)
        with assms q Inr False r3 have "s' = s3"
          by (simp add: createService_def cf_GetServices_def list_ex_Name)
        with tr3 have "trace s' = trace s @ GetServicesCall # ?evs @ CliCommandCall ?args # []"
          by simp
        moreover have "list_all is_poll_event []" by simp
        ultimately show thesis
          using q Inr False pr by (intro created[of svcs w ?evs "[]"]) auto
      next
        case None
        with assms q Inr False r3 have "poll env name s3 = Some (r, s')"
          by (simp add: createService_def cf_GetServices_def list_ex_Name)
        from poll_extends[OF this] obtain evs' where
          "trace s' = trace s3 @ evs'" "list_all is_poll_event evs'"
          by auto
        with tr3 have "trace s' = trace s @ GetServicesCall # ?evs @ CliCommandCall ?args # evs'"
          by simp
        then show thesis
          using q Inr False pr \<open>list_all is_poll_event evs'\<close>
          by (intro created[of svcs w ?evs evs']) auto
      qed
    qed
  qed
qed

lemma createService_GetServices_count:
  assumes "createService env name broker plan JSONParam s = Some (r, s')"
  shows "length (filter is_GetServices (trace s')) = Suc (length (filter is_GetServices (trace s)))"
  using assms
  by (cases rule: createService_cases)
     (simp_all add: filter_GetServices_Printed filter_GetServices_poll_events)

lemma createService_commands_new:
  assumes "GetServices env (world s) = (Inr svcs, w)"
    and "\<forall>svc\<in>set svcs. Name svc \<noteq> name"
    and "createService env name broker plan JSONParam s = Some (r, s')"
  shows "cli_commands (trace s')
           = cli_commands (trace s) @ [create_service_args name broker plan JSONParam]"
  using assms(3)
proof (cases rule: createService_cases)
  case (query_failed err w)
  with assms show ?thesis by simp
next
  case (exists svcs w)
  with assms show ?thesis by auto
next
  case (created svcs w evs evs')
  then show ?thesis
    by (simp add: cli_commands_append cli_commands_Printed cli_commands_poll_events)
qed

lemma createService_no_push:
  assumes "createService env name broker plan JSONParam s = Some (r, s')"
  shows "filter is_push (trace s') = filter is_push (trace s)"
  using assms
  by (cases rule: createService_cases)
     (simp_all add: filter_push_Printed filter_push_poll_events create_service_args_def)

lemma createService_no_entry:
  "loop_entry env name broker plan JSONParam s = None \<Longrightarrow>
     createService env name broker plan JSONParam s \<noteq> None"
  by (auto simp: loop_entry_def createService_def split: prod.splits sum.splits option.splits if_splits)

lemma createService_entry:
  "loop_entry env name broker plan JSONParam s = Some s3 \<Longrightarrow>
     createService env name broker plan JSONParam s = poll env name s3"
  by (auto simp: loop_entry_def createService_def split: prod.splits sum.splits option.splits if_splits)

lemma createService_settled:
  assumes "case loop_entry env name broker plan JSONParam s of
             None \<Rightarrow> True | Some s3 \<Rightarrow> settles env name (world s3) n"
  shows "createService env name broker plan JSONParam s \<noteq> None"
proof (cases "loop_entry env name broker plan JSONParam s")
  case None
  then show ?thesis by (rule createService_no_entry)
next
  case (Some s3)
  with assms have "settles env name (world s3) n" by simp
  then have "poll env name s3 \<noteq> None" by (rule settles_poll_returns)
  with Some show ?thesis by (simp add: createService_entry)
qed

text \<open>
  Claim C3. When \<open>GetServices\<close> answers with a list that holds a service whose
  \<open>Name\<close> is exactly the requested name, \<open>createService\<close> returns nil after printing
  the notice, and passes no command to \<open>CliCommand\<close>.
\<close>

theorem createService_existing_skips:
  assumes "GetServices env (world s) = (Inr svcs, w)"
    and "\<exists>svc\<in>set svcs. Name svc = name"
  shows "\<exists>s'. createService env name broker plan JSONParam s = Some (None, s')
           \<and> trace s' = trace s @ [GetServicesCall, Printed (name @ '' already exists.\<newline>'')]
           \<and> cli_commands (trace s') = cli_commands (trace s)"
  using assms
  by (simp add: createService_def cf_GetServices_def list_ex_Name trace_Printf
        cli_commands_append)

theorem createService_existing_witness:
  "\<exists>s'. createService (example_env 0\<lparr>GetServices := \<lambda>w. (Inr [\<lparr>Name = ''db1''\<rparr>], w)\<rparr>)
            ''db1'' ''mysql'' ''free'' [] start = Some (None, s')
      \<and> trace s' = [GetServicesCall, Printed ''db1 already exists.\<newline>'']
      \<and> cli_commands (trace s') = []"
  using createService_existing_skips[of "example_env 0\<lparr>GetServices := \<lambda>w. (Inr [\<lparr>Name = ''db1''\<rparr>], w)\<rparr>"
          start "[\<lparr>Name = ''db1''\<rparr>]" 0 "''db1''" "''mysql''" "''free''" "[]"]
  by (simp add: example_env_def start_def)

text \<open>
  Claim C1, as the code has it. When no service of that name exists and the creation
  command returns an error, \<open>createService\<close> returns that error (lines 141-143) and makes
  no \<open>GetService\<close> query: the polling loop is not entered.
\<close>

theorem createService_creation_error_returns:
  assumes "GetServices env (world s) = (Inr svcs, w)"
    and "\<forall>svc\<in>set svcs. Name svc \<noteq> name"
    and "CliCommand env (create_service_args name broker plan JSONParam) w = ((out, Some e), w')"
  shows "\<exists>s'. createService env name broker plan JSONParam s = Some (Some e, s')
           \<and> filter is_GetService (trace s') = filter is_GetService (trace s)"
  using assms
  by (simp add: createService_def cf_GetServices_def list_ex_Name run_eq
        trace_Printf world_Printf)

theorem createService_creation_error_witness:
  "\<exists>s'. createService (example_env 0\<lparr>CliCommand := failing_cli\<rparr>) ''db1'' ''mysql'' ''free'' [] start
          = Some (Some (ErrOther ''boom''), s')
      \<and> filter is_GetService (trace s') = []"
  using createService_creation_error_returns[of "example_env 0\<lparr>CliCommand := failing_cli\<rparr>" start "[]" 0
          "''db1''" "''mysql''" "''free''" "[]" "[]" "ErrOther ''boom''" 0]
  by (simp add: example_env_def failing_cli_def start_def create_service_args_def)

text \<open>
  Claim C1 as stated fails: with a creation command that reports an error, the run of
  \<open>createService\<close> for \<open>db1\<close> ends with that error, and its whole trace holds no query
  for \<open>db1\<close>.
\<close>

theorem createService_polls_after_error_counterexample:
  "createService (example_env 0\<lparr>CliCommand := failing_cli\<rparr>) ''db1'' ''mysql'' ''free'' [] start
     = Some (Some (ErrOther ''boom''),
         \<lparr>world = 0,
          trace = [GetServicesCall,
                   Printed ''db1 will now be created.\<newline>'',
                   Printed ''Now Running CLI Command: create-service mysql free db1\<newline>'',
                   CliCommandCall [''create-service'', ''mysql'', ''free'', ''db1'']]\<rparr>)"
  by (simp add: example_defs)

section \<open>Creating the services of a manifest\<close>

lemma createServices_append:
  "createServices env (xs @ ys) s =
     (case createServices env xs s of None \<Rightarrow> None | Some (r, s1) \<Rightarrow> createServices env ys s1)"
proof (induction xs arbitrary: s)
  case Nil
  then show ?case by simp
next
  case (Cons x xs)
  then show ?case
    by (simp split: option.splits prod.splits)
qed

lemma createServices_GetServices_count:
  "createServices env m s = Some (r, s') \<Longrightarrow>
     length (filter is_GetServices (trace s')) = length (filter is_GetServices (trace s)) + length m"
proof (induction m arbitrary: s)
  case Nil
  then show ?case by simp
next
  case (Cons x rest)
  then show ?case
    by (auto split: option.splits prod.splits dest!: createService_GetServices_count
          simp: trace_Printf)
qed

lemma createServices_no_push:
  "createServices env m s = Some (r, s') \<Longrightarrow> filter is_push (trace s') = filter is_push (trace s)"
proof (induction m arbitrary: s)
  case Nil
  then show ?case by simp
next
  case (Cons x rest)
  then show ?case
    by (auto split: option.splits prod.splits dest!: createService_no_push simp: trace_Printf)
qed

lemma createServices_single:
  assumes "createService env (ServiceName x) (Broker x) (PlanName x) (JSONParameters x) s
             = Some (r, s1)"
  shows "createServices env [x] s
           = Some (None, case r of None \<Rightarrow> s1
                         | Some err \<Rightarrow>
                             Printf (''Create Service Error: '' @ Error_msg err @ '' \<newline>'') s1)"
    and "createServices env (x # rest) s
           = createServices env rest
               (case r of None \<Rightarrow> s1
                | Some err \<Rightarrow>
                    Printf (''Create Service Error: '' @ Error_msg err @ '' \<newline>'') s1)"
  using assms by (simp_all split: option.splits)

lemma createServices_settled:
  "polls_settle n env m s \<Longrightarrow> \<exists>s'. createServices env m s = Some (None, s')"
proof (induction m arbitrary: s)
  case Nil
  then show ?case by simp
next
  case (Cons x rest)
  from Cons.prems have
    "case loop_entry env (ServiceName x) (Broker x) (PlanName x) (JSONParameters x) s of
       None \<Rightarrow> True | Some s3 \<Rightarrow> settles env (ServiceName x) (world s3) n"
    by simp
  from createService_settled[OF this] obtain r s1 where
    c: "createService env (ServiceName x) (Broker x) (PlanName x) (JSONParameters x) s
          = Some (r, s1)"
    by auto
  let ?s2 = "case r of None \<Rightarrow> s1
             | Some err \<Rightarrow> Printf (''Create Service Error: '' @ Error_msg err @ '' \<newline>'') s1"
  from Cons.prems createServices_single(1)[OF c] have "polls_settle n env rest ?s2"
    by simp
  from Cons.IH[OF this] createServices_single(2)[OF c] show ?case
    by simp
qed

text \<open>
  Claim C2, as the code has it. When at each entry's turn the answer of \<open>GetServices\<close>
  lists no service of that entry's name, and every polling loop that the batch enters
  settles, \<open>createServices\<close> returns, and the commands it has passed to \<open>CliCommand\<close>
  are exactly the creation commands of the entries, one per entry, in the order of the
  manifest.
\<close>

theorem createServices_issues_each_creation:
  assumes "fresh_at_turn env m s"
    and "polls_settle n env m s"
  shows "\<exists>s'. createServices env m s = Some (None, s')
           \<and> cli_commands (trace s')
               = cli_commands (trace s)
                 @ map (\<lambda>x. create_service_args (ServiceName x) (Broker x) (PlanName x)
                                (JSONParameters x)) m"
  using assms
proof (induction m arbitrary: s)
  case Nil
  then show ?case by simp
next
  case (Cons x rest)
  from Cons.prems(1) obtain svcs w where
    q: "GetServices env (world s) = (Inr svcs, w)"
    and fresh: "\<forall>svc\<in>set svcs. Name svc \<noteq> ServiceName x"
    by (cases "GetServices env (world s)")
       (auto simp: list_ex_iff split: sum.splits)
  from Cons.prems(2) have
    "case loop_entry env (ServiceName x) (Broker x) (PlanName x) (JSONParameters x) s of
       None \<Rightarrow> True | Some s3 \<Rightarrow> settles env (ServiceName x) (world s3) n"
    by simp
  from createService_settled[OF this] obtain r s1 where
    c: "createService env (ServiceName x) (Broker x) (PlanName x) (JSONParameters x) s
          = Some (r, s1)"
    by auto
  let ?s2 = "case r of None \<Rightarrow> s1
             | Some err \<Rightarrow> Printf (''Create Service Error: '' @ Error_msg err @ '' \<newline>'') s1"
  have cmds: "cli_commands (trace ?s2)
                = cli_commands (trace s)
                  @ [create_service_args (ServiceName x) (Broker x) (PlanName x) (JSONParameters x)]"
    using createService_commands_new[OF q fresh c]
    by (simp add: trace_Printf cli_commands_append split: option.splits)
  from Cons.prems createServices_single(1)[OF c] have
    "fresh_at_turn env rest ?s2" "polls_settle n env rest ?s2"
    by simp_all
  from Cons.IH[OF this] obtain s' where
    "createServices env rest ?s2 = Some (None, s')"
    "cli_commands (trace s') = cli_commands (trace ?s2)
       @ map (\<lambda>x. create_service_args (ServiceName x) (Broker x) (PlanName x) (JSONParameters x)) rest"
    by blast
  with createServices_single(2)[OF c] cmds show ?case by simp
qed

text \<open>
  On the control plane that lists what it has created, the two entries of the manifest
  are created in order.
\<close>

theorem createServices_issues_each_creation_witness:
  "\<exists>s'. createServices tracking_env [db1, cache] nothing_created = Some (None, s')
      \<and> world s' = [''db1'', ''cache'']
      \<and> cli_commands (trace s')
          = [[''create-service'', ''mysql'', ''free'', ''db1''],
             [''create-service'', ''redis'', ''small'', ''cache'', ''-c'', ''{}'']]"
proof -
  have fresh: "fresh_at_turn tracking_env [db1, cache] nothing_created"
    by (simp add: example_defs tracking_env_def nothing_created_def poll_step)
  have settle: "polls_settle 0 tracking_env [db1, cache] nothing_created"
    by (simp add: example_defs tracking_env_def nothing_created_def poll_step loop_entry_def)
  from createServices_issues_each_creation[OF fresh settle] show ?thesis
    by (simp add: example_defs tracking_env_def nothing_created_def poll_step)
qed

text \<open>
  Claim C2 as stated fails in two ways. On a control plane that lists what it has created
  and holds no service at the start, a manifest that names \<open>db1\<close> twice leads to one
  creation command, not two: the second entry finds the service that the first has
  created. And with a service that never leaves \<open>in progress\<close> the batch does not
  return: the first polling loop has no end and the second entry is never reached.
\<close>

theorem createServices_issues_each_creation_counterexample:
  "map_option (cli_commands \<circ> trace \<circ> snd) (createServices tracking_env [db1, db1] nothing_created)
     = Some [[''create-service'', ''mysql'', ''free'', ''db1'']]
   \<and> createServices (example_env 0\<lparr>GetService := stuck_service\<rparr>) [db1, cache] start = None"
  by (simp add: example_defs tracking_env_def nothing_created_def poll_step stuck_poll)

text \<open>
  Claim C4. When the entries \<open>pre\<close> have been processed and \<open>createService\<close> returns
  an error for the next entry \<open>x\<close>, the batch prints the error and goes on exactly as a
  batch of the remaining entries \<open>post\<close>; when it returns, every one of them has had its
  \<open>GetServices\<close> query, the first step of \<open>createService\<close>.
\<close>

theorem createServices_continues_after_error:
  assumes "createServices env pre s = Some (r0, s1)"
    and "createService env (ServiceName x) (Broker x) (PlanName x) (JSONParameters x) s1
           = Some (Some err, s2)"
  shows "createServices env (pre @ x # post) s
           = createServices env post
               (Printf (''Create Service Error: '' @ Error_msg err @ '' \<newline>'') s2)
         \<and> (\<forall>r s'. createServices env (pre @ x # post) s = Some (r, s') \<longrightarrow>
               length (filter is_GetServices (trace s'))
                 = length (filter is_GetServices (trace s2)) + length post)"
proof -
  let ?s3 = "Printf (''Create Service Error: '' @ Error_msg err @ '' \<newline>'') s2"
  have eq: "createServices env (pre @ x # post) s = createServices env post ?s3"
    using assms by (simp add: createServices_append)
  have "length (filter is_GetServices (trace s'))
          = length (filter is_GetServices (trace s2)) + length post"
    if "createServices env (pre @ x # post) s = Some (r, s')" for r s'
    using that createServices_GetServices_count[of env post ?s3 r s'] eq
    by (simp add: trace_Printf)
  with eq show ?thesis by blast
qed

theorem createServices_continues_after_error_witness:
  "\<exists>s'. createServices (example_env 0\<lparr>CliCommand := failing_cli\<rparr>) [db1, cache] start
          = Some (None, s')
      \<and> length (filter is_GetServices (trace s')) = 2"
proof -
  let ?env = "example_env 0\<lparr>CliCommand := failing_cli\<rparr>"
  let ?s2 = "\<lparr>world = 0,
          trace = [GetServicesCall,
                   Printed ''db1 will now be created.\<newline>'',
                   Printed ''Now Running CLI Command: create-service mysql free db1\<newline>'',
                   CliCommandCall [''create-service'', ''mysql'', ''free'', ''db1'']]\<rparr>"
  have pre: "createServices ?env [] start = Some (None, start)"
    by simp
  have err: "createService ?env (ServiceName db1) (Broker db1) (PlanName db1) (JSONParameters db1)
               start = Some (Some (ErrOther ''boom''), ?s2)"
    by (simp add: example_defs)
  have rest: "\<exists>s'. createServices ?env [cache]
                 (Printf (''Create Service Error: '' @ Error_msg (ErrOther ''boom'') @ '' \<newline>'') ?s2)
               = Some (None, s')"
    by (simp add: example_defs)
  from createServices_continues_after_error[OF pre err, of "[cache]"] rest show ?thesis
    by (auto simp: example_defs)
qed

text \<open>
  Claim C10, as the code has it. When every polling loop that the batch enters settles,
  \<open>createServices\<close> returns, and the error it returns is nil, whatever the per-service
  creations have returned; every entry has had its \<open>GetServices\<close> query by then.
\<close>

theorem createServices_returns_nil:
  assumes "polls_settle n env m s"
  shows "\<exists>s'. createServices env m s = Some (None, s')
           \<and> length (filter is_GetServices (trace s'))
               = length (filter is_GetServices (trace s)) + length m"
proof -
  from createServices_settled[OF assms] obtain s' where
    run: "createServices env m s = Some (None, s')"
    by blast
  from createServices_GetServices_count[OF run] run show ?thesis
    by blast
qed

text \<open>
  A batch whose only creation fails: the error is printed and nil is returned. And a batch
  whose services each take three queries to succeed.
\<close>

theorem createServices_returns_nil_witness:
  "createServices (example_env 0\<lparr>CliCommand := failing_cli\<rparr>) [db1] start
     = Some (None,
         \<lparr>world = 0,
          trace = [GetServicesCall,
                   Printed ''db1 will now be created.\<newline>'',
                   Printed ''Now Running CLI Command: create-service mysql free db1\<newline>'',
                   CliCommandCall [''create-service'', ''mysql'', ''free'', ''db1''],
                   Printed ''Create Service Error: boom \<newline>'']\<rparr>)
   \<and> (\<exists>s'. createServices (example_env 2) [db1, cache] start = Some (None, s'))"
proof -
  have a: "polls_settle 0 (example_env 0\<lparr>CliCommand := failing_cli\<rparr>) [db1] start"
    by (simp add: example_defs loop_entry_def)
  have b: "polls_settle (Suc (Suc 0)) (example_env 2) [db1, cache] start"
    by (simp add: example_defs loop_entry_def poll_step)
  from createServices_returns_nil[OF b] obtain s' where
    second: "createServices (example_env 2) [db1, cache] start = Some (None, s')"
    by blast
  have first: "createServices (example_env 0\<lparr>CliCommand := failing_cli\<rparr>) [db1] start
     = Some (None,
         \<lparr>world = 0,
          trace = [GetServicesCall,
                   Printed ''db1 will now be created.\<newline>'',
                   Printed ''Now Running CLI Command: create-service mysql free db1\<newline>'',
                   CliCommandCall [''create-service'', ''mysql'', ''free'', ''db1''],
                   Printed ''Create Service Error: boom \<newline>'']\<rparr>)"
    using createServices_returns_nil[OF a] by (simp add: example_defs)
  from first second show ?thesis
    by blast
qed

text \<open>
  Claim C10 as stated fails: with a service that never leaves \<open>in progress\<close> the batch
  returns nothing at all.
\<close>

theorem createServices_returns_nil_counterexample:
  "createServices (example_env 0\<lparr>GetService := stuck_service\<rparr>) [db1] start = None"
  by (simp add: example_defs stuck_poll)

section \<open>The flag scans\<close>

lemma manifest_scan_skip:
  assumes "\<forall>j. i \<le> j \<and> j < k \<longrightarrow> args ! j \<noteq> ''--service-manifest'' \<and> args ! j \<noteq> ''--no-service-manifest''"
    and "i \<le> k" and "k \<le> length args"
  shows "manifest_scan args i fn = manifest_scan args k fn"
  using assms
proof (induction args i fn rule: manifest_scan.induct)
  case (1 args i fn)
  show ?case
  proof (cases "i = k")
    case True
    then show ?thesis by simp
  next
    case False
    with 1(3) have lt: "i < k" by simp
    with 1(2) have nf: "args ! i \<noteq> ''--service-manifest''" "args ! i \<noteq> ''--no-service-manifest''"
      by auto
    from lt 1(4) have il: "i < length args" by simp
    have "manifest_scan args (i + 1) fn = manifest_scan args k fn"
      using 1(1)[OF il nf] 1(2) lt 1(4) by simp
    with il nf show ?thesis
      by (subst manifest_scan.simps) simp
  qed
qed

lemma manifest_scan_at_flag:
  assumes "i < length args" and "args ! i = ''--service-manifest''"
    and "\<forall>j<i. args ! j \<noteq> ''--service-manifest'' \<and> args ! j \<noteq> ''--no-service-manifest''"
  shows "manifest_scan args 0 fn =
           (if i + 1 < length args then Inr (args ! (i + 1))
            else Inl (IndexOutOfRange (i + 1) (length args)))"
proof -
  have "manifest_scan args 0 fn = manifest_scan args i fn"
    using assms by (intro manifest_scan_skip) auto
  also have "\<dots> = (if i + 1 < length args then Inr (args ! (i + 1))
            else Inl (IndexOutOfRange (i + 1) (length args)))"
    using assms(1,2) by (subst manifest_scan.simps) simp
  finally show ?thesis .
qed

lemma manifest_scan_from_no_manifest:
  assumes "drop i args = pre @ ''--no-service-manifest'' # post"
    and "''--service-manifest'' \<notin> set pre"
  shows "manifest_scan args i fn = Inr []"
  using assms
proof (induction args i fn arbitrary: pre rule: manifest_scan.induct)
  case (1 args i fn)
  from 1(2) have il: "i < length args"
    by (cases "i < length args") simp_all
  then have hd: "drop i args = args ! i # drop (i + 1) args"
    by (simp add: Cons_nth_drop_Suc)
  show ?case
  proof (cases pre)
    case Nil
    with 1(2) hd have "args ! i = ''--no-service-manifest''" by simp
    with il show ?thesis
      by (subst manifest_scan.simps) simp
  next
    case (Cons p pre')
    with 1(2) hd have p: "args ! i = p" and rest: "drop (i + 1) args = pre' @ ''--no-service-manifest'' # post"
      by simp_all
    from Cons 1(3) have ns: "args ! i \<noteq> ''--service-manifest''" and ns': "''--service-manifest'' \<notin> set pre'"
      using p by auto
    show ?thesis
    proof (cases "args ! i = ''--no-service-manifest''")
      case True
      with il show ?thesis
        by (subst manifest_scan.simps) simp
    next
      case False
      from 1(1)[OF il ns False rest ns'] il ns False show ?thesis
        by (subst manifest_scan.simps) simp
    qed
  qed
qed

lemma manifest_scan_no_manifest:
  assumes "args = pre @ ''--no-service-manifest'' # post"
    and "''--service-manifest'' \<notin> set pre"
  shows "manifest_scan args 0 fn = Inr []"
  using manifest_scan_from_no_manifest[of 0 args pre post fn] assms by simp

lemma push_scan_no_push: "''--no-push'' \<in> set args \<Longrightarrow> push_scan args b = False"
  by (induction args) auto

section \<open>The entry point\<close>

lemma manifest_stage_empty: "manifest_stage env [] s = Some (None, s)"
  by (simp add: manifest_stage_def)

lemma push_stage_trace:
  "\<exists>evs1 evs2. trace (push_stage env args s)
      = trace s @ evs1 @ CliCommandCall (''push'' # tl args) # evs2
      \<and> list_all (\<lambda>e. \<exists>l. e = Printed l) evs1 \<and> list_all (\<lambda>e. \<exists>l. e = Printed l) evs2"
proof -
  obtain out err w where c: "CliCommand env (''push'' # tl args) (world s) = ((out, err), w)"
    by (cases "CliCommand env (''push'' # tl args) (world s)") auto
  let ?p1 = "Printed (''Performing a CF Push with arguments '' @ Join (tl args) '' '' @ ''\<newline>'')"
  let ?p2 = "Printed (''['' @ Join out '' '' @ '']'' @ ''\<newline>'')"
  let ?evs2 = "?p2 # (case err of Some e \<Rightarrow> [Printed (''ERROR while pushing: '' @ Error_msg e @ ''\<newline>'')] | None \<Rightarrow> [])"
  have "trace (push_stage env args s) = trace s @ [?p1] @ CliCommandCall (''push'' # tl args) # ?evs2"
    using c by (simp add: push_stage_def cf_CliCommand_def world_Printf trace_Printf Let_def
        split: option.splits)
  moreover have "list_all (\<lambda>e. \<exists>l. e = Printed l) [?p1]" by simp
  moreover have "list_all (\<lambda>e. \<exists>l. e = Printed l) ?evs2" by (simp split: option.splits)
  ultimately show ?thesis by blast
qed

lemma push_stage_no_manifest_work:
  "filter is_manifest_work (trace (push_stage env args s)) = filter is_manifest_work (trace s)"
proof -
  from push_stage_trace[of env args s] obtain evs1 evs2 where
    "trace (push_stage env args s) = trace s @ evs1 @ CliCommandCall (''push'' # tl args) # evs2"
    "list_all (\<lambda>e. \<exists>l. e = Printed l) evs1" "list_all (\<lambda>e. \<exists>l. e = Printed l) evs2"
    by blast
  then show ?thesis
    by (simp add: filter_manifest_work_Printed)
qed

lemma manifest_stage_no_push:
  assumes "manifest_stage env filename s = Some (r, s')"
  shows "filter is_push (trace s') = filter is_push (trace s)"
proof (cases "filename = []")
  case True
  with assms show ?thesis by (simp add: manifest_stage_def)
next
  case False
  obtain err w1 where st: "Stat env filename (world s) = (err, w1)"
    by (cases "Stat env filename (world s)") auto
  show ?thesis
  proof (cases "IsNotExist err")
    case True
    with assms False st show ?thesis
      by (auto simp: manifest_stage_def os_Stat_def trace_Printf)
  next
    case nf: False
    obtain o' w2 where op: "Open env filename w1 = (o', w2)"
      by (cases "Open env filename w1") auto
    show ?thesis
    proof (cases o')
      case (Inl oerr)
      with assms False st nf op show ?thesis
        by (auto simp: manifest_stage_def os_Stat_def os_Open_def trace_Printf world_Printf)
    next
      case (Inr filePointer)
      show ?thesis
      proof (cases "ParseManifest env filePointer")
        case (Inl perr)
        with assms False st nf op Inr show ?thesis
          by (auto simp: manifest_stage_def os_Stat_def os_Open_def trace_Printf world_Printf
                trace_emit)
      next
        case pm: (Inr manifest)
        let ?s2 = "emit (ParseManifestCall filePointer)
                     \<lparr>world = w2, trace = trace s @ [StatCall filename,
                        Printed (''Found ManifestFile: '' @ filename @ ''\<newline>''),
                        OpenCall filename]\<rparr>"
        from assms False st nf op Inr pm obtain r' where
          "createServices env (Services manifest) ?s2 = Some (r', s')"
          by (auto simp: manifest_stage_def os_Stat_def os_Open_def trace_Printf world_Printf
                split: option.splits)
        from createServices_no_push[OF this] show ?thesis
          by (simp add: trace_emit)
      qed
    qed
  qed
qed

lemma manifest_stage_settled:
  assumes "case batch_entry env filename s of
             None \<Rightarrow> True | Some (m, s2) \<Rightarrow> polls_settle n env m s2"
  shows "\<exists>s'. manifest_stage env filename s
           = Some (if filename \<noteq> [] \<and> fatal_manifest_error env filename (world s)
                   then Some 1 else None, s')"
proof (cases "filename = []")
  case True
  then show ?thesis by (simp add: manifest_stage_def)
next
  case False
  obtain err w1 where st: "Stat env filename (world s) = (err, w1)"
    by (cases "Stat env filename (world s)") auto
  show ?thesis
  proof (cases "IsNotExist err")
    case True
    with False st show ?thesis
      by (simp add: manifest_stage_def os_Stat_def fatal_manifest_error_def)
  next
    case nf: False
    obtain o' w2 where op: "Open env filename w1 = (o', w2)"
      by (cases "Open env filename w1") auto
    show ?thesis
    proof (cases o')
      case (Inl oerr)
      with False st nf op show ?thesis
        by (simp add: manifest_stage_def os_Stat_def os_Open_def fatal_manifest_error_def
              world_Printf)
    next
      case (Inr filePointer)
      show ?thesis
      proof (cases "ParseManifest env filePointer")
        case (Inl perr)
        with False st nf op Inr show ?thesis
          by (simp add: manifest_stage_def os_Stat_def os_Open_def fatal_manifest_error_def
                world_Printf)
      next
        case pm: (Inr manifest)
        let ?s2 = "emit (ParseManifestCall filePointer)
                     \<lparr>world = w2, trace = trace s @ [StatCall filename,
                        Printed (''Found ManifestFile: '' @ filename @ ''\<newline>''),
                        OpenCall filename]\<rparr>"
        from assms False st nf op Inr pm have "polls_settle n env (Services manifest) ?s2"
          by (simp add: batch_entry_def os_Stat_def os_Open_def world_Printf trace_Printf)
        from createServices_settled[OF this] obtain s' where
          "createServices env (Services manifest) ?s2 = Some (None, s')"
          by blast
        with False st nf op Inr pm show ?thesis
          by (simp add: manifest_stage_def os_Stat_def os_Open_def fatal_manifest_error_def
                world_Printf trace_Printf)
      qed
    qed
  qed
qed

text \<open>
  Claim C9, as the code has it. Let \<open>--service-manifest\<close> stand at index \<open>i\<close>, with
  neither manifest flag before it, so that the scan stops there. The read of \<open>args[i+1]\<close>
  is in bounds exactly when an argument follows, and then yields that argument; when the
  flag is the last element the read is out of range, and \<open>Run\<close> of the command panics.
\<close>

theorem Run_service_manifest_without_path:
  assumes "i < length args" and "args ! i = ''--service-manifest''"
    and "\<forall>j<i. args ! j \<noteq> ''--service-manifest'' \<and> args ! j \<noteq> ''--no-service-manifest''"
  shows "manifest_scan args 0 fn =
           (if i + 1 < length args then Inr (args ! (i + 1))
            else Inl (IndexOutOfRange (i + 1) (length args)))
       \<and> (args ! 0 = ''create-service-push'' \<and> i + 1 = length args \<longrightarrow>
            Run env args s = Some (Panicked (IndexOutOfRange (length args) (length args)), s))"
  using manifest_scan_at_flag[OF assms] assms(1)
  by (auto simp: Run_def)

theorem Run_service_manifest_without_path_witness:
  "Run (example_env 0) [''create-service-push'', ''myapp'', ''--service-manifest''] start
     = Some (Panicked (IndexOutOfRange 3 3), start)
   \<and> manifest_scan [''create-service-push'', ''--service-manifest'', ''my.yml'', ''myapp''] 0
         ''services-manifest.yml'' = Inr ''my.yml''"
  using Run_service_manifest_without_path[of 2
          "[''create-service-push'', ''myapp'', ''--service-manifest'']"
          "''services-manifest.yml''" "example_env 0" start]
        Run_service_manifest_without_path[of 1
          "[''create-service-push'', ''--service-manifest'', ''my.yml'', ''myapp'']"
          "''services-manifest.yml''" "example_env 0" start]
  by (simp add: All_less_Suc numeral_2_eq_2)

text \<open>
  Claim C9 as stated fails: the scan stops at the first manifest flag. With
  \<open>--no-service-manifest\<close> before a final \<open>--service-manifest\<close> nothing is read past the
  end and \<open>Run\<close> returns; with \<open>--service-manifest\<close> twice, the second is taken as the
  path of the first.
\<close>

theorem manifest_scan_stops_at_first_flag_counterexample:
  "manifest_scan [''create-service-push'', ''--no-service-manifest'', ''--service-manifest''] 0
      ''services-manifest.yml'' = Inr []
   \<and> Run (example_env 0)
        [''create-service-push'', ''--no-service-manifest'', ''--service-manifest''] start
      = Some (Returned,
          \<lparr>world = 0,
           trace = [Printed ''Performing a CF Push with arguments --no-service-manifest --service-manifest\<newline>'',
                    CliCommandCall [''push'', ''--no-service-manifest'', ''--service-manifest''],
                    Printed ''[]\<newline>'']\<rparr>)
   \<and> manifest_scan [''create-service-push'', ''--service-manifest'', ''--service-manifest''] 0
        ''services-manifest.yml'' = Inr ''--service-manifest''"
  by (simp add: Run_def manifest_scan.simps manifest_stage_def push_stage_def example_defs)

text \<open>
  Claim C6. When the arguments hold \<open>--no-service-manifest\<close> with no
  \<open>--service-manifest\<close> before it, the manifest file name becomes empty, and \<open>Run\<close>
  returns without any file lookup, parse, or call of service creation.
\<close>

theorem Run_no_service_manifest:
  assumes "args = pre @ ''--no-service-manifest'' # post"
    and "''--service-manifest'' \<notin> set pre"
  shows "manifest_scan args 0 ''services-manifest.yml'' = Inr []
       \<and> (\<exists>s'. Run env args s = Some (Returned, s')
             \<and> filter is_manifest_work (trace s') = filter is_manifest_work (trace s))"
proof -
  have scan: "manifest_scan args 0 ''services-manifest.yml'' = Inr []"
    using assms by (rule manifest_scan_no_manifest)
  have ne: "length args \<noteq> 0"
    using assms(1) by simp
  show ?thesis
  proof (cases "args ! 0 = ''create-service-push''")
    case False
    with ne scan show ?thesis by (simp add: Run_def)
  next
    case True
    with ne scan have "Run env args s
        = Some (Returned, if push_scan args True then push_stage env args s else s)"
      by (simp add: Run_def manifest_stage_empty)
    with scan show ?thesis
      by (simp add: push_stage_no_manifest_work)
  qed
qed

theorem Run_no_service_manifest_witness:
  "manifest_scan [''create-service-push'', ''--no-service-manifest'', ''myapp''] 0
      ''services-manifest.yml'' = Inr []
   \<and> (\<exists>s'. Run (example_env 0) [''create-service-push'', ''--no-service-manifest'', ''myapp''] start
             = Some (Returned, s')
         \<and> filter is_manifest_work (trace s') = [])"
  using Run_no_service_manifest[of "[''create-service-push'', ''--no-service-manifest'', ''myapp'']"
          "[''create-service-push'']" "[''myapp'']" "example_env 0" start]
  by (simp add: start_def)

text \<open>
  Claim C7. When the arguments hold \<open>--no-push\<close> anywhere, \<open>pushApplication\<close> is false
  and no run of \<open>Run\<close> passes a \<open>push\<close> command to \<open>CliCommand\<close>, whatever the other
  arguments are.
\<close>

theorem Run_no_push:
  assumes "''--no-push'' \<in> set args"
    and "Run env args s = Some (out, s')"
  shows "push_scan args True = False
       \<and> filter is_push (trace s') = filter is_push (trace s)"
proof -
  have np: "push_scan args True = False"
    using assms(1) by (rule push_scan_no_push)
  have "filter is_push (trace s') = filter is_push (trace s)"
  proof (cases "length args = 0 \<or> args ! 0 \<noteq> ''create-service-push''")
    case True
    with assms show ?thesis by (auto simp: Run_def split: if_splits)
  next
    case False
    show ?thesis
    proof (cases "manifest_scan args 0 ''services-manifest.yml''")
      case (Inl p)
      with assms(2) False show ?thesis by (auto simp: Run_def)
    next
      case (Inr manifestFilename)
      with assms(2) False np obtain r where
        "manifest_stage env manifestFilename s = Some (r, s')"
        by (auto simp: Run_def split: option.splits)
      then show ?thesis by (rule manifest_stage_no_push)
    qed
  qed
  with np show ?thesis by simp
qed

text \<open>
  A run that creates the two services of the manifest and does not push.
\<close>

theorem Run_no_push_witness:
  "\<exists>s'. Run (example_env 0) [''create-service-push'', ''--no-push''] start = Some (Returned, s')
      \<and> cli_commands (trace s')
          = [[''create-service'', ''mysql'', ''free'', ''db1''],
             [''create-service'', ''redis'', ''small'', ''cache'', ''-c'', ''{}'']]
      \<and> filter is_push (trace s') = []"
proof -
  have "\<exists>s'. Run (example_env 0) [''create-service-push'', ''--no-push''] start = Some (Returned, s')
          \<and> cli_commands (trace s')
          = [[''create-service'', ''mysql'', ''free'', ''db1''],
             [''create-service'', ''redis'', ''small'', ''cache'', ''-c'', ''{}'']]"
    by (simp add: Run_def manifest_scan.simps manifest_stage_def example_defs poll_step)
  then obtain s' where
    run: "Run (example_env 0) [''create-service-push'', ''--no-push''] start = Some (Returned, s')"
    and cmds: "cli_commands (trace s')
          = [[''create-service'', ''mysql'', ''free'', ''db1''],
             [''create-service'', ''redis'', ''small'', ''cache'', ''-c'', ''{}'']]"
    by blast
  have flag: "''--no-push'' \<in> set [''create-service-push'', ''--no-push'']"
    by simp
  from Run_no_push[OF flag run] run cmds show ?thesis
    by (simp add: start_def)
qed

text \<open>
  Claim C8, as the code has it. Let \<open>filename\<close> be the active manifest file name that
  the flags select, and let every polling loop that the run enters settle. Then \<open>Run\<close>
  ends: with \<open>os.Exit(1)\<close> exactly in the three fatal cases of the manifest stage, and by
  returning in every other case, whatever the creations and the forwarded command
  report.
\<close>

theorem Run_exit_status:
  assumes "args \<noteq> []"
    and "args ! 0 = ''create-service-push'' \<longrightarrow>
           manifest_scan args 0 ''services-manifest.yml'' = Inr filename
           \<and> (case batch_entry env filename s of
                 None \<Rightarrow> True | Some (m, s2) \<Rightarrow> polls_settle n env m s2)"
  shows "\<exists>s'. Run env args s
           = Some (if args ! 0 = ''create-service-push'' \<and> filename \<noteq> []
                      \<and> fatal_manifest_error env filename (world s)
                   then Exited 1 else Returned, s')"
proof (cases "args ! 0 = ''create-service-push''")
  case False
  with assms(1) show ?thesis by (simp add: Run_def)
next
  case True
  with assms(2) have scan: "manifest_scan args 0 ''services-manifest.yml'' = Inr filename"
    and settle: "case batch_entry env filename s of
                   None \<Rightarrow> True | Some (m, s2) \<Rightarrow> polls_settle n env m s2"
    by simp_all
  from manifest_stage_settled[OF settle] obtain s1 where
    "manifest_stage env filename s
       = Some (if filename \<noteq> [] \<and> fatal_manifest_error env filename (world s)
               then Some 1 else None, s1)"
    by blast
  with True assms(1) scan show ?thesis
    by (simp add: Run_def)
qed

text \<open>
  A manifest file that is not found gives exit status 1; creation commands and a forwarded
  command that all fail still let \<open>Run\<close> return; so do services that take three queries
  to succeed.
\<close>

theorem Run_exit_status_witness:
  "(\<exists>s'. Run (example_env 0\<lparr>Stat := \<lambda>filename w. (Some (ErrNotExist ''no such file''), w)\<rparr>)
            [''create-service-push'', ''myapp''] start = Some (Exited 1, s'))
   \<and> (\<exists>s'. Run (example_env 0\<lparr>CliCommand := failing_cli\<rparr>)
            [''create-service-push'', ''myapp''] start = Some (Returned, s'))
   \<and> (\<exists>s'. Run (example_env 2)
            [''create-service-push'', ''myapp''] start = Some (Returned, s'))"
proof -
  let ?args = "[''create-service-push'', ''myapp'']"
  let ?env1 = "example_env 0\<lparr>Stat := \<lambda>filename w. (Some (ErrNotExist ''no such file''), w)\<rparr>"
  let ?env2 = "example_env 0\<lparr>CliCommand := failing_cli\<rparr>"
  have ne: "?args \<noteq> []" by simp
  have h1: "?args ! 0 = ''create-service-push'' \<longrightarrow>
              manifest_scan ?args 0 ''services-manifest.yml'' = Inr ''services-manifest.yml''
              \<and> (case batch_entry ?env1 ''services-manifest.yml'' start of
                    None \<Rightarrow> True | Some (m, s2) \<Rightarrow> polls_settle 0 ?env1 m s2)"
    by (simp add: manifest_scan.simps batch_entry_def example_defs)
  have h2: "?args ! 0 = ''create-service-push'' \<longrightarrow>
              manifest_scan ?args 0 ''services-manifest.yml'' = Inr ''services-manifest.yml''
              \<and> (case batch_entry ?env2 ''services-manifest.yml'' start of
                    None \<Rightarrow> True | Some (m, s2) \<Rightarrow> polls_settle 0 ?env2 m s2)"
    by (simp add: manifest_scan.simps batch_entry_def example_defs loop_entry_def)
  have h3: "?args ! 0 = ''create-service-push'' \<longrightarrow>
              manifest_scan ?args 0 ''services-manifest.yml'' = Inr ''services-manifest.yml''
              \<and> (case batch_entry (example_env 2) ''services-manifest.yml'' start of
                    None \<Rightarrow> True | Some (m, s2) \<Rightarrow> polls_settle (Suc (Suc 0)) (example_env 2) m s2)"
    by (simp add: manifest_scan.simps batch_entry_def example_defs loop_entry_def poll_step)
  from Run_exit_status[OF ne h1] Run_exit_status[OF ne h2] Run_exit_status[OF ne h3]
  show ?thesis
    by (simp add: fatal_manifest_error_def example_env_def start_def)
qed

text \<open>
  Claim C8 as stated fails: with a manifest file that is present and parses, and a service
  that never leaves \<open>in progress\<close>, none of the three fatal cases arises and yet \<open>Run\<close>
  neither exits nor returns.
\<close>

theorem Run_never_returns_counterexample:
  "Run (example_env 0\<lparr>GetService := stuck_service\<rparr>) [''create-service-push'', ''myapp''] start
     = None
   \<and> \<not> fatal_manifest_error (example_env 0\<lparr>GetService := stuck_service\<rparr>)
         ''services-manifest.yml'' (world start)"
  by (simp add: Run_def manifest_scan.simps manifest_stage_def fatal_manifest_error_def
        example_defs stuck_poll)

end
